theory Spec2Isabelle
  imports Complex_Main
begin

section \<open>Python values, errors and the builtins the program calls\<close>

text \<open>
  The program is two Python modules: \<^verbatim>\<open>utils/ui_utils.py\<close> (the constant \<^verbatim>\<open>STEPS\<close>,
  \<^verbatim>\<open>compute_current_step\<close>, \<^verbatim>\<open>render_progress\<close>) and \<^verbatim>\<open>app.py\<close> (\<^verbatim>\<open>main\<close>).
  It reads one key of Streamlit's session state, converts it with the builtin \<^verbatim>\<open>int\<close>,
  divides with \<^verbatim>\<open>/\<close>, formats an f-string and calls \<^verbatim>\<open>st.write\<close> and \<^verbatim>\<open>st.progress\<close>.

  A Python exception is a value of \<open>pyerr\<close>; a function that may raise returns
  \<open>pyerr + 'a\<close> with \<open>Inl\<close> for the exception.
\<close>

text \<open>
  \<^verbatim>\<open>StreamlitAPIException\<close> is the exception of the Streamlit library; \<^verbatim>\<open>st.progress\<close>
  raises it with the value it rejects in the message, which the exception carries here.
\<close>

datatype pyerr =
    TypeError
  | ValueError
  | OverflowError
  | ZeroDivisionError
  | StreamlitAPIException rat

text \<open>
  A Python \<^verbatim>\<open>float\<close> is an IEEE binary64 value. A finite one is a rational number, kept
  here as that rational (the two zeros are not told apart: the program never divides by a
  float nor prints one).
\<close>

datatype pyfloat = Finite rat | PosInf | NegInf | NaN

text \<open>
  The values a session-state entry may hold, as far as this development follows them.
  Python's \<^verbatim>\<open>int\<close> is unbounded, hence \<open>int\<close>. A \<^verbatim>\<open>str\<close> is a list of code points; the
  model keeps the code points below 256, one \<open>char\<close> each.
\<close>

datatype pyval =
    PNone
  | PBool bool
  | PInt int
  | PFloat pyfloat
  | PStr string
  | PList "pyval list"

subsection \<open>\<^verbatim>\<open>int(x)\<close>\<close>

text \<open>
  \<^verbatim>\<open>int\<close> of a string: surrounding whitespace is dropped, then an optional sign, then
  decimal digits in which single underscores may stand between two digits. The code
  points below 256 that \<^verbatim>\<open>int\<close> drops as whitespace are 9 to 13, 32, 133 and 160 (the
  separators 28 to 31, which \<^verbatim>\<open>str.isspace\<close> accepts, are not among them).

  A string of more than \<^verbatim>\<open>sys.int_info.default_max_str_digits\<close> = 4300 digits (signs and
  underscores not counted, leading zeros counted) is refused. Every refusal is the same
  \<^verbatim>\<open>ValueError\<close>, so the order of the checks does not show.
\<close>

definition is_space :: "char \<Rightarrow> bool" where
  "is_space c = (let n = (of_char c :: nat) in
     (9 \<le> n \<and> n \<le> 13) \<or> n = 32 \<or> n = 133 \<or> n = 160)"

definition is_digit :: "char \<Rightarrow> bool" where
  "is_digit c = (let n = (of_char c :: nat) in 48 \<le> n \<and> n \<le> 57)"

definition digit_val :: "char \<Rightarrow> int" where
  "digit_val c = (of_char c :: int) - 48"

definition strip :: "string \<Rightarrow> string" where
  "strip s = rev (dropWhile is_space (rev (dropWhile is_space s)))"

fun parse_digits :: "int \<Rightarrow> bool \<Rightarrow> string \<Rightarrow> int option" where
  "parse_digits acc prev [] = (if prev then Some acc else None)"
| "parse_digits acc prev (c # cs) =
     (if is_digit c then parse_digits (10 * acc + digit_val c) True cs
      else if c = CHR ''_'' \<and> prev then parse_digits acc False cs
      else None)"

definition int_max_str_digits :: nat where
  "int_max_str_digits = 4300"

definition int_of_str :: "string \<Rightarrow> int option" where
  "int_of_str s =
     (case strip s of
        [] \<Rightarrow> None
      | c # cs \<Rightarrow>
          let body = (if c = CHR ''-'' \<or> c = CHR ''+'' then cs else c # cs)
          in if int_max_str_digits < length (filter is_digit body) then None
             else case parse_digits 0 False body of
                    None \<Rightarrow> None
                  | Some n \<Rightarrow> Some (if c = CHR ''-'' then - n else n))"

text \<open>\<^verbatim>\<open>int\<close> of a finite float drops the fractional part (rounds toward zero).\<close>

definition trunc :: "rat \<Rightarrow> int" where
  "trunc r = (if 0 \<le> r then \<lfloor>r\<rfloor> else \<lceil>r\<rceil>)"

fun py_int :: "pyval \<Rightarrow> pyerr + int" where
  "py_int PNone = Inl TypeError"
| "py_int (PBool b) = Inr (if b then 1 else 0)"
| "py_int (PInt n) = Inr n"
| "py_int (PFloat (Finite r)) = Inr (trunc r)"
| "py_int (PFloat PosInf) = Inl OverflowError"
| "py_int (PFloat NegInf) = Inl OverflowError"
| "py_int (PFloat NaN) = Inl ValueError"
| "py_int (PStr s) = (case int_of_str s of None \<Rightarrow> Inl ValueError | Some n \<Rightarrow> Inr n)"
| "py_int (PList xs) = Inl TypeError"

subsection \<open>\<^verbatim>\<open>a / b\<close> on two ints\<close>

text \<open>
  True division of two ints raises \<^verbatim>\<open>ZeroDivisionError\<close> on a zero divisor, and otherwise
  gives the binary64 value nearest to the quotient (ties to the even significand), or
  raises \<^verbatim>\<open>OverflowError\<close> when that value is out of the binary64 range.

  A binary64 value is \<open>n * 2 ^ (e - 52)\<close> with a significand \<open>n < 2 ^ 53\<close> and an
  exponent \<open>e\<close> from \<open>- 1022\<close> to \<open>1023\<close>. For a quotient \<open>x\<close>, \<open>e\<close> is the
  exponent of its leading bit (at least \<open>- 1022\<close>), the significand is
  \<open>\<bar>x\<bar> / 2 ^ (e - 52)\<close> rounded to an integer, and the result is out of range when
  \<open>e\<close> exceeds 1023 or the rounding carries out of the largest exponent.
\<close>

definition pow2 :: "int \<Rightarrow> rat" where
  "pow2 k = (if 0 \<le> k then 2 ^ nat k else 1 / 2 ^ nat (- k))"

function bit_length :: "int \<Rightarrow> int" where
  "bit_length n = (if n \<le> 0 then 0 else 1 + bit_length (n div 2))"
  by pat_completeness auto
termination
  by (relation "measure nat") auto

declare bit_length.simps [simp del]

definition floor_log2 :: "rat \<Rightarrow> int" where
  "floor_log2 x =
     (let (p, q) = quotient_of x;
          d = bit_length p - bit_length q
      in if pow2 d \<le> x then d else d - 1)"

definition round_half_even :: "rat \<Rightarrow> int" where
  "round_half_even x =
     (let f = \<lfloor>x\<rfloor>; r = x - of_int f
      in if r < 1 / 2 then f
         else if 1 / 2 < r then f + 1
         else if even f then f else f + 1)"

definition nearest_double :: "rat \<Rightarrow> rat option" where
  "nearest_double x =
     (if x = 0 then Some 0
      else
        let e = max (floor_log2 \<bar>x\<bar>) (- 1022);
            ulp = pow2 (e - 52);
            n = round_half_even (\<bar>x\<bar> / ulp)
        in if 1023 < e \<or> (e = 1023 \<and> 2 ^ 53 \<le> n) then None
           else Some (sgn x * of_int n * ulp))"

definition int_true_divide :: "int \<Rightarrow> int \<Rightarrow> pyerr + rat" where
  "int_true_divide a b =
     (if b = 0 then Inl ZeroDivisionError
      else case nearest_double (of_int a / of_int b) of
             None \<Rightarrow> Inl OverflowError
           | Some y \<Rightarrow> Inr y)"

subsection \<open>\<^verbatim>\<open>str(n)\<close> of an int, as an f-string field formats it\<close>

definition digit_char :: "int \<Rightarrow> char" where
  "digit_char d = char_of (48 + d)"

function dec_digits :: "int \<Rightarrow> string" where
  "dec_digits n =
     (if n < 10 then [digit_char n] else dec_digits (n div 10) @ [digit_char (n mod 10)])"
  by pat_completeness auto
termination
  by (relation "measure nat") auto

declare dec_digits.simps [simp del]

definition py_str_int :: "int \<Rightarrow> string" where
  "py_str_int n = (if n < 0 then CHR ''-'' # dec_digits (- n) else dec_digits n)"

section \<open>The program\<close>

text \<open>
  What the program can touch outside itself: Streamlit's session state, a dictionary from
  string keys to values, and the page, to which \<^verbatim>\<open>st.write\<close> and \<^verbatim>\<open>st.progress\<close> append
  an element each. The page is kept as the list of these calls with their arguments.
\<close>

datatype ui_event = Write string | Progress rat

record world =
  session_state :: "string \<rightharpoonup> pyval"
  page :: "ui_event list"

text \<open>
  A call that raises adds nothing to the page; what was added before it stays.
\<close>

text \<open>\<^verbatim>\<open>st.session_state.get(key, default)\<close>\<close>

definition session_get :: "string \<Rightarrow> pyval \<Rightarrow> world \<Rightarrow> pyval \<times> world" where
  "session_get key dflt w =
     (case session_state w key of None \<Rightarrow> (dflt, w) | Some v \<Rightarrow> (v, w))"

text \<open>\<^verbatim>\<open>st.write(text)\<close> with a string.\<close>

definition st_write :: "string \<Rightarrow> world \<Rightarrow> world" where
  "st_write s w = w\<lparr>page := page w @ [Write s]\<rparr>"

text \<open>
  \<^verbatim>\<open>st.progress(value)\<close> with a float. Streamlit accepts the value when
  \<^verbatim>\<open>0.0 <= value <= 1.0\<close>, or when \<^verbatim>\<open>math.isclose(value, 0.0, rel_tol=1e-9, abs_tol=1e-9)\<close>,
  or the same with \<^verbatim>\<open>1.0\<close>; otherwise it raises \<^verbatim>\<open>StreamlitAPIException\<close>.

  \<^verbatim>\<open>math.isclose(a, b, rel_tol, abs_tol)\<close> on finite floats is
  \<^verbatim>\<open>a == b\<close>, or, with \<^verbatim>\<open>diff = fabs(b - a)\<close>,
  \<^verbatim>\<open>diff <= fabs(rel_tol * b) or diff <= fabs(rel_tol * a) or diff <= abs_tol\<close>.
  The difference and the products are float operations, rounded by \<open>nearest_double\<close>;
  \<open>None\<close> there is an infinity. \<open>float_1e_9\<close> is the float that the literal
  \<^verbatim>\<open>1e-9\<close> denotes.
\<close>

definition float_1e_9 :: rat where
  "float_1e_9 = 4835703278458517 / 4835703278458516698824704"

fun fabs_le :: "rat option \<Rightarrow> rat option \<Rightarrow> bool" where
  "fabs_le _ None = True"
| "fabs_le None (Some y) = False"
| "fabs_le (Some x) (Some y) = (\<bar>x\<bar> \<le> \<bar>y\<bar>)"

definition isclose :: "rat \<Rightarrow> rat \<Rightarrow> bool" where
  "isclose a b =
     (a = b \<or>
      (let diff = nearest_double (b - a)
       in fabs_le diff (nearest_double (float_1e_9 * b)) \<or>
          fabs_le diff (nearest_double (float_1e_9 * a)) \<or>
          fabs_le diff (Some float_1e_9)))"

definition check_float_between :: "rat \<Rightarrow> bool" where
  "check_float_between x = ((0 \<le> x \<and> x \<le> 1) \<or> isclose x 0 \<or> isclose x 1)"

definition st_progress :: "rat \<Rightarrow> world \<Rightarrow> (pyerr + unit) \<times> world" where
  "st_progress x w =
     (if check_float_between x then (Inr (), w\<lparr>page := page w @ [Progress x]\<rparr>)
      else (Inl (StreamlitAPIException x), w))"

text \<open>\<^verbatim>\<open>STEPS\<close>, ui_utils.py lines 6 to 11.\<close>

definition STEPS :: "string list" where
  "STEPS = [''Upload File'', ''Map Accounts'', ''Review Results'', ''Finalize'']"

text \<open>
  \<^verbatim>\<open>compute_current_step\<close>, ui_utils.py lines 14 to 16:
  \<^verbatim>\<open>return int(st.session_state.get("current_step", 0))\<close>
\<close>

definition compute_current_step :: "world \<Rightarrow> (pyerr + int) \<times> world" where
  "compute_current_step w =
     (let (v, w1) = session_get ''current_step'' (PInt 0) w in (py_int v, w1))"

text \<open>
  \<^verbatim>\<open>render_progress\<close>, ui_utils.py lines 19 to 23, with the module constant it reads as a
  parameter:
  \<^verbatim>\<open>
  progress = (step + 1) / len(STEPS)
  st.write(f"Step {step + 1} of {len(STEPS)}")
  st.progress(progress)
  \<close>
\<close>

definition render_progress_of :: "string list \<Rightarrow> int \<Rightarrow> world \<Rightarrow> (pyerr + unit) \<times> world" where
  "render_progress_of steps step w =
     (case int_true_divide (step + 1) (int (length steps)) of
        Inl e \<Rightarrow> (Inl e, w)
      | Inr progress \<Rightarrow>
          let w1 = st_write (''Step '' @ py_str_int (step + 1) @ '' of ''
                               @ py_str_int (int (length steps))) w
          in st_progress progress w1)"

definition render_progress :: "int \<Rightarrow> world \<Rightarrow> (pyerr + unit) \<times> world" where
  "render_progress = render_progress_of STEPS"

text \<open>
  \<^verbatim>\<open>main\<close>, app.py lines 4 to 6:
  \<^verbatim>\<open>
  step = compute_current_step()
  render_progress(step)
  \<close>
\<close>

definition main :: "world \<Rightarrow> (pyerr + unit) \<times> world" where
  "main w =
     (case compute_current_step w of
        (Inl e, w1) \<Rightarrow> (Inl e, w1)
      | (Inr step, w1) \<Rightarrow> render_progress step w1)"

section \<open>Properties\<close>

subsection \<open>Values used below\<close>

lemma length_STEPS: "length STEPS = 4"
  by (simp add: STEPS_def)

lemma int_true_divide_zero_iff: "int_true_divide a b = Inl ZeroDivisionError \<longleftrightarrow> b = 0"
  by (simp add: int_true_divide_def split: option.split)

lemma quarters:
  "int_true_divide 1 4 = Inr (1 / 4)"
  "int_true_divide 2 4 = Inr (2 / 4)"
  "int_true_divide 3 4 = Inr (3 / 4)"
  "int_true_divide 4 4 = Inr (4 / 4)"
  "int_true_divide 6 4 = Inr (3 / 2)"
  by code_simp+

lemma small_strs:
  "py_str_int 0 = ''0''"
  "py_str_int 1 = ''1''"
  "py_str_int 2 = ''2''"
  "py_str_int 3 = ''3''"
  "py_str_int 4 = ''4''"
  "py_str_int 6 = ''6''"
  by code_simp+

text \<open>
  The range check of \<^verbatim>\<open>st.progress\<close>: the interval from 0 to 1 passes on the first
  comparison; 1.5 is neither in it nor close to an end of it.
\<close>

lemma check_float_between_unit: "0 \<le> x \<Longrightarrow> x \<le> 1 \<Longrightarrow> check_float_between x"
  by (simp add: check_float_between_def)

lemma check_float_between_three_halves: "\<not> check_float_between (3 / 2)"
  by code_simp

text \<open>
  \<^verbatim>\<open>int\<close> refuses a separator of the range 28 to 31 beside the digits, and a string of
  more than 4300 digits.
\<close>

lemma int_of_str_separator: "int_of_str [CHR 0x1C, CHR ''3''] = None"
  by code_simp

lemma strip_digits:
  assumes "ds \<noteq> []" and "\<forall>c \<in> set ds. is_digit c"
  shows "strip ds = ds"
proof -
  have ns: "is_digit c \<Longrightarrow> \<not> is_space c" for c
    by (auto simp: is_digit_def is_space_def Let_def)
  from assms obtain c cs where ds: "ds = c # cs" by (cases ds) auto
  with assms(2) ns have "dropWhile is_space ds = ds" by simp
  moreover from assms have "\<not> is_space (last ds)"
    using ns last_in_set [of ds] by blast
  then have "dropWhile is_space (rev ds) = rev ds"
    using assms(1) by (cases "rev ds") (auto simp: last_rev hd_rev dest: arg_cong [where f = hd])
  ultimately show ?thesis by (simp add: strip_def)
qed

lemma int_of_str_too_long:
  assumes "\<forall>c \<in> set ds. is_digit c" and "4300 < length ds"
  shows "int_of_str ds = None"
proof -
  from assms(2) have ne: "ds \<noteq> []" by auto
  then obtain c cs where ds: "ds = c # cs" by (cases ds) auto
  from assms(1) ds have "is_digit c" by simp
  then have sign: "c \<noteq> CHR ''-''" "c \<noteq> CHR ''+''"
    by (auto simp: is_digit_def)
  have all: "filter is_digit ds = ds"
    using assms(1) by (simp add: filter_id_conv)
  have "int_of_str ds =
        (if int_max_str_digits < length (filter is_digit ds) then None
         else case parse_digits 0 False ds of None \<Rightarrow> None | Some n \<Rightarrow> Some n)"
    using sign strip_digits [OF ne assms(1)]
    unfolding int_of_str_def ds
    by (simp add: Let_def del: filter.simps parse_digits.simps split: option.split)
  with assms(2) show ?thesis
    by (simp only: all int_max_str_digits_def if_True)
qed

lemma py_int_4301_digits: "py_int (PStr (replicate 4301 CHR ''1'')) = Inl ValueError"
proof -
  have "is_digit CHR ''1''" by code_simp
  then have "int_of_str (replicate 4301 CHR ''1'') = None"
    by (intro int_of_str_too_long) simp_all
  then show ?thesis by simp
qed

subsection \<open>The division: exponent bounds, exact quotients, overflow\<close>

text \<open>
  \<open>bit_length\<close> and \<open>floor_log2\<close> compute what their names say, a quotient that fits the
  significand is returned unchanged, and a quotient of magnitude \<open>2 ^ 1024\<close> or more
  overflows.
\<close>

lemma pow2_powi: "pow2 k = 2 powi k"
  by (simp add: pow2_def power_int_def inverse_eq_divide power_one_over)

lemma bit_length_bounds:
  "0 < n \<Longrightarrow> 0 < bit_length n \<and> 2 ^ nat (bit_length n - 1) \<le> n \<and> n < 2 ^ nat (bit_length n)"
proof (induction n rule: bit_length.induct)
  case (1 n)
  show ?case
  proof (cases "n div 2 \<le> 0")
    case True
    with "1.prems" have "n = 1" by arith
    then show ?thesis
      by (simp add: bit_length.simps [of 1] bit_length.simps [of 0])
  next
    case False
    then have pos: "0 < n div 2" by simp
    with "1.IH" "1.prems" have ih: "0 < bit_length (n div 2)"
      "2 ^ nat (bit_length (n div 2) - 1) \<le> n div 2"
      "n div 2 < 2 ^ nat (bit_length (n div 2))"
      by simp_all
    define b where "b = bit_length (n div 2)"
    have bl: "bit_length n = 1 + b"
      using "1.prems" by (simp add: bit_length.simps [of n] b_def)
    have nb: "nat b = Suc (nat (b - 1))" and nb1: "nat (1 + b) = Suc (nat b)"
      using ih(1) by (simp_all add: b_def)
    have "2 * 2 ^ nat (b - 1) \<le> 2 * (n div 2)"
      using ih(2) by (simp add: b_def)
    also have "\<dots> \<le> n" by simp
    finally have lo: "2 ^ nat b \<le> n"
      unfolding nb power_Suc .
    have "n div 2 + 1 \<le> 2 ^ nat b"
      using ih(3) by (simp add: b_def)
    then have "2 * (n div 2) + 2 \<le> 2 * 2 ^ nat b" by simp
    moreover have "n < 2 * (n div 2) + 2" by arith
    ultimately have hi: "n < 2 ^ nat (1 + b)"
      unfolding nb1 power_Suc by linarith
    from lo hi ih(1) show ?thesis
      by (simp add: bl b_def)
  qed
qed

lemma bit_length_powi:
  assumes "0 < n"
  shows "(2::rat) powi (bit_length n - 1) \<le> of_int n" and "of_int n < (2::rat) powi bit_length n"
proof -
  from bit_length_bounds [OF assms]
  have b: "0 < bit_length n" "2 ^ nat (bit_length n - 1) \<le> n" "n < 2 ^ nat (bit_length n)"
    by simp_all
  have "(2::rat) powi (bit_length n - 1) = of_int (2 ^ nat (bit_length n - 1))"
    using b(1) by (simp add: power_int_def)
  also have "\<dots> \<le> of_int n"
    using b(2) by (simp only: of_int_le_iff)
  finally show "(2::rat) powi (bit_length n - 1) \<le> of_int n" .
  have "(of_int n :: rat) < of_int (2 ^ nat (bit_length n))"
    using b(3) by (simp only: of_int_less_iff)
  also have "\<dots> = 2 powi bit_length n"
    using b(1) by (simp add: power_int_def)
  finally show "of_int n < (2::rat) powi bit_length n" .
qed

lemma floor_log2_bounds:
  assumes "0 < x"
  shows "pow2 (floor_log2 x) \<le> x" and "x < pow2 (floor_log2 x + 1)"
proof -
  obtain p q where pq: "quotient_of x = (p, q)" by (cases "quotient_of x")
  then have q: "0 < q" by (rule quotient_of_denom_pos)
  have x: "x = of_int p / of_int q"
    using pq by (simp add: quotient_of_div)
  with assms q have p: "0 < p"
    by (simp add: zero_less_divide_iff)
  define d where "d = bit_length p - bit_length q"
  have fl: "floor_log2 x = (if pow2 d \<le> x then d else d - 1)"
    by (simp add: floor_log2_def pq d_def)
  have qr: "(0::rat) < of_int q" using q by simp
  have lo: "(2::rat) powi (d - 1) < x"
  proof -
    have "(2::rat) powi (d - 1) = 2 powi (bit_length p - 1) / 2 powi bit_length q"
      by (simp add: d_def flip: power_int_diff) (simp add: algebra_simps)
    also have "\<dots> \<le> of_int p / 2 powi bit_length q"
      using bit_length_powi(1) [OF p] by (simp add: divide_right_mono)
    also have "\<dots> < of_int p / of_int q"
      using bit_length_powi(2) [OF q] p qr by (simp add: divide_strict_left_mono)
    finally show ?thesis by (simp add: x)
  qed
  have hi: "x < (2::rat) powi (d + 1)"
  proof -
    have "x = of_int p / of_int q" by (rule x)
    also have "\<dots> < 2 powi bit_length p / of_int q"
      using bit_length_powi(2) [OF p] qr by (simp add: divide_strict_right_mono)
    also have "\<dots> \<le> 2 powi bit_length p / 2 powi (bit_length q - 1)"
      using bit_length_powi(1) [OF q] by (intro frac_le) simp_all
    also have "\<dots> = 2 powi (d + 1)"
      by (simp add: d_def flip: power_int_diff) (simp add: algebra_simps)
    finally show ?thesis .
  qed
  show "pow2 (floor_log2 x) \<le> x"
    using lo by (simp add: fl pow2_powi)
  show "x < pow2 (floor_log2 x + 1)"
    using hi by (auto simp: fl pow2_powi)
qed

lemma powi2_less_cancel: "(2::rat) powi a < 2 powi b \<Longrightarrow> a < b"
  using power_int_increasing [of b a "2::rat"] by (cases "a < b") simp_all

lemma floor_log2_ge:
  assumes "pow2 k \<le> x"
  shows "k \<le> floor_log2 x"
proof -
  have "0 < pow2 k" by (simp add: pow2_powi)
  with assms have "0 < x" by simp
  from floor_log2_bounds(2) [OF this] assms have "pow2 k < pow2 (floor_log2 x + 1)"
    by simp
  then have "k < floor_log2 x + 1"
    unfolding pow2_powi by (rule powi2_less_cancel)
  then show ?thesis by simp
qed

lemma floor_log2_less:
  assumes "0 < x" and "x < pow2 k"
  shows "floor_log2 x < k"
proof -
  from floor_log2_bounds(1) [OF assms(1)] assms(2) have "pow2 (floor_log2 x) < pow2 k"
    by simp
  then show ?thesis
    unfolding pow2_powi by (rule powi2_less_cancel)
qed

lemma nearest_double_overflow:
  assumes "pow2 1024 \<le> \<bar>x\<bar>"
  shows "nearest_double x = None"
proof -
  from floor_log2_ge [OF assms] have fl: "1024 \<le> floor_log2 \<bar>x\<bar>" .
  have "0 < pow2 1024" unfolding pow2_powi by (rule zero_less_power_int) simp
  with assms have "x \<noteq> 0" by auto
  with fl show ?thesis
    by (simp add: nearest_double_def Let_def max_def)
qed

lemma round_half_even_of_int: "round_half_even (of_int m) = m"
  by (simp add: round_half_even_def)

lemma nearest_double_exact:
  assumes nz: "x \<noteq> 0"
    and lo: "- 1022 \<le> floor_log2 \<bar>x\<bar>" and hi: "floor_log2 \<bar>x\<bar> \<le> 1023"
    and m: "\<bar>x\<bar> / pow2 (floor_log2 \<bar>x\<bar> - 52) = of_int m"
  shows "nearest_double x = Some x"
proof -
  define e where "e = floor_log2 \<bar>x\<bar>"
  have ulp: "0 < pow2 (e - 52)" by (simp add: pow2_powi)
  from nz have pos: "0 < \<bar>x\<bar>" by simp
  have "\<bar>x\<bar> < pow2 (e + 1)"
    unfolding e_def by (rule floor_log2_bounds(2) [OF pos])
  then have "\<bar>x\<bar> / pow2 (e - 52) < pow2 (e + 1) / pow2 (e - 52)"
    using ulp by (simp add: divide_strict_right_mono)
  also have "\<dots> = 2 powi ((e + 1) - (e - 52))"
    unfolding pow2_powi by (rule power_int_diff [symmetric]) simp
  also have "\<dots> = 2 ^ 53" by simp
  finally have "(of_int m :: rat) < of_int (2 ^ 53)"
    using m by (simp add: e_def)
  then have m53: "m < 2 ^ 53"
    by (simp only: of_int_less_iff)
  have scaled: "of_int m * pow2 (e - 52) = \<bar>x\<bar>"
    using m ulp by (simp add: e_def field_simps)
  have "sgn x * of_int m * pow2 (e - 52) = sgn x * \<bar>x\<bar>"
    using scaled by (simp add: mult.assoc)
  also have "\<dots> = x" by (simp add: sgn_mult_abs)
  finally have val: "sgn x * of_int m * pow2 (e - 52) = x" .
  have "nearest_double x =
        (if 1023 < e \<or> (e = 1023 \<and> 2 ^ 53 \<le> m) then None
         else Some (sgn x * of_int m * pow2 (e - 52)))"
    using nz lo m
    by (simp add: nearest_double_def Let_def max_def round_half_even_of_int flip: e_def)
  with hi m53 val show ?thesis
    by (simp add: e_def)
qed

lemma int_true_divide_4_exact:
  assumes "\<bar>a\<bar> < 2 ^ 53"
  shows "int_true_divide a 4 = Inr (of_int a / 4)"
proof (cases "a = 0")
  case True
  then show ?thesis by (simp add: int_true_divide_def nearest_double_def)
next
  case False
  define x :: rat where "x = of_int a / 4"
  define e where "e = floor_log2 \<bar>x\<bar>"
  have ax: "\<bar>x\<bar> = of_int \<bar>a\<bar> / 4" by (simp add: x_def)
  from False have "1 \<le> \<bar>a\<bar>" by simp
  then have "(1::rat) \<le> of_int \<bar>a\<bar>" by (simp only: of_int_1_le_iff)
  then have "pow2 (- 2) \<le> \<bar>x\<bar>" by (simp add: ax pow2_def)
  then have lo: "- 2 \<le> e" unfolding e_def by (rule floor_log2_ge)
  from False have nz: "x \<noteq> 0" by (simp add: x_def)
  from assms have "(of_int \<bar>a\<bar> :: rat) < of_int (2 ^ 53)" by (simp only: of_int_less_iff)
  then have "\<bar>x\<bar> < pow2 51" by (simp add: ax pow2_def)
  with nz have "e < 51" unfolding e_def by (intro floor_log2_less) simp_all
  then have hi: "e \<le> 50" by simp
  have "pow2 (e - 52) * 2 powi (50 - e) = 2 powi ((e - 52) + (50 - e))"
    unfolding pow2_powi by (rule power_int_add [symmetric]) simp
  also have "\<dots> = 1 / 4" by simp
  finally have q: "pow2 (e - 52) * 2 powi (50 - e) = 1 / 4" .
  have ulp: "0 < pow2 (e - 52)" by (simp add: pow2_powi)
  have "\<bar>x\<bar> / pow2 (e - 52) = of_int \<bar>a\<bar> * (pow2 (e - 52) * 2 powi (50 - e)) / pow2 (e - 52)"
    by (simp add: ax q)
  also have "\<dots> = of_int \<bar>a\<bar> * 2 powi (50 - e)"
    using ulp by simp
  also have "\<dots> = of_int (\<bar>a\<bar> * 2 ^ nat (50 - e))"
    using hi by (simp add: power_int_def)
  finally have m: "\<bar>x\<bar> / pow2 (floor_log2 \<bar>x\<bar> - 52) = of_int (\<bar>a\<bar> * 2 ^ nat (50 - e))"
    by (simp add: e_def)
  have "nearest_double x = Some x"
    using nz _ _ m by (rule nearest_double_exact) (use lo hi in \<open>simp_all add: e_def\<close>)
  then show ?thesis
    by (simp add: int_true_divide_def x_def)
qed

subsection \<open>The range check of \<^verbatim>\<open>st.progress\<close> on quotients by 4\<close>

text \<open>
  Rounding at most doubles a magnitude and stays finite below the largest exponent, and a
  quarter of an integer of up to 53 bits is a float. So for a quotient \<open>a / 4\<close> outside
  the interval from 0 to 1 the differences that \<^verbatim>\<open>math.isclose\<close> takes are exact and at least
  a quarter, far above the tolerances: the check refuses it.
\<close>

lemma round_half_even_bounds:
  assumes "0 \<le> m"
  shows "0 \<le> round_half_even m" and "of_int (round_half_even m) \<le> 2 * m"
proof -
  define f where "f = \<lfloor>m\<rfloor>"
  define r where "r = m - of_int f"
  have f0: "0 \<le> f" using assms by (simp add: f_def)
  then have fr: "(0::rat) \<le> of_int f" by simp
  have m: "m = of_int f + r" by (simp add: r_def)
  have r0: "0 \<le> r" and r1: "r < 1"
    unfolding r_def f_def by linarith+
  have rhe: "round_half_even m =
      (if r < 1 / 2 then f else if 1 / 2 < r then f + 1 else if even f then f else f + 1)"
    by (simp add: round_half_even_def Let_def f_def r_def)
  show "0 \<le> round_half_even m"
    using f0 by (simp add: rhe)
  have two: "2 * m = 2 * of_int f + 2 * r" by (simp add: r_def)
  show "of_int (round_half_even m) \<le> 2 * m"
    unfolding rhe two
  proof (cases "r < 1 / 2")
    case True
    then show "of_int (if r < 1 / 2 then f else if 1 / 2 < r then f + 1
                       else if even f then f else f + 1) \<le> 2 * of_int f + 2 * r"
      using fr r0 by simp
  next
    case False
    note nlt = this
    show "of_int (if r < 1 / 2 then f else if 1 / 2 < r then f + 1
                  else if even f then f else f + 1) \<le> 2 * of_int f + 2 * r"
    proof (cases "1 / 2 < r")
      case True
      then show ?thesis using fr nlt by simp
    next
      case False
      with nlt have half: "r = 1 / 2" by simp
      show ?thesis
      proof (cases "even f")
        case True
        then show ?thesis using fr by (simp add: half)
      next
        case False
        with f0 have "1 \<le> f" by (cases "f = 0") auto
        then have "(1::rat) \<le> of_int f" by simp
        with False show ?thesis by (simp add: half)
      qed
    qed
  qed
qed

lemma nearest_double_abs_le:
  assumes "nearest_double y = Some z"
  shows "\<bar>z\<bar> \<le> 2 * \<bar>y\<bar>"
proof (cases "y = 0")
  case True
  with assms show ?thesis by (simp add: nearest_double_def)
next
  case False
  define e where "e = max (floor_log2 \<bar>y\<bar>) (- 1022)"
  define n where "n = round_half_even (\<bar>y\<bar> / pow2 (e - 52))"
  have ulp: "0 < pow2 (e - 52)" by (simp add: pow2_powi)
  then have m0: "0 \<le> \<bar>y\<bar> / pow2 (e - 52)" by simp
  from assms False have z: "z = sgn y * of_int n * pow2 (e - 52)"
    by (simp add: nearest_double_def Let_def e_def n_def split: if_splits)
  have n0: "0 \<le> n" unfolding n_def by (rule round_half_even_bounds(1) [OF m0])
  have "of_int n \<le> 2 * (\<bar>y\<bar> / pow2 (e - 52))"
    unfolding n_def by (rule round_half_even_bounds(2) [OF m0])
  then have "of_int n * pow2 (e - 52) \<le> 2 * (\<bar>y\<bar> / pow2 (e - 52)) * pow2 (e - 52)"
    using ulp by (simp only: mult_le_cancel_right_pos)
  also have "\<dots> = 2 * \<bar>y\<bar>" using ulp by simp
  finally have le: "of_int n * pow2 (e - 52) \<le> 2 * \<bar>y\<bar>" .
  have "\<bar>z\<bar> = \<bar>sgn y\<bar> * (of_int n * pow2 (e - 52))"
    using n0 ulp by (simp add: z abs_mult)
  also have "\<dots> = of_int n * pow2 (e - 52)"
    using False by (simp add: abs_sgn_eq)
  finally show ?thesis using le by simp
qed

lemma nearest_double_finite:
  assumes "\<bar>y\<bar> < pow2 k" and "k \<le> 1023"
  shows "nearest_double y \<noteq> None"
proof (cases "y = 0")
  case True
  then show ?thesis by (simp add: nearest_double_def)
next
  case False
  then have "0 < \<bar>y\<bar>" by simp
  from floor_log2_less [OF this assms(1)] assms(2) have "floor_log2 \<bar>y\<bar> < 1023" by simp
  with False show ?thesis
    by (simp add: nearest_double_def Let_def max_def)
qed

lemma nearest_double_quarter:
  assumes "\<bar>a\<bar> < 2 ^ 53"
  shows "nearest_double (of_int a / 4) = Some (of_int a / 4)"
  using int_true_divide_4_exact [OF assms]
  by (simp add: int_true_divide_def split: option.splits)

lemma float_1e_9_double: "nearest_double float_1e_9 = Some float_1e_9"
  by code_simp

lemma float_1e_9_small: "0 < float_1e_9" "float_1e_9 < 1 / 16"
  by (simp_all add: float_1e_9_def)

lemma nearest_double_zero: "nearest_double 0 = Some 0"
  by (simp add: nearest_double_def)

lemma check_float_between_quarters:
  assumes small: "\<bar>a\<bar> < 2 ^ 52" and out: "a < 0 \<or> 4 < a"
  shows "\<not> check_float_between (of_int a / 4)"
proof -
  define x :: rat where "x = of_int a / 4"
  have ax: "\<bar>x\<bar> = \<bar>of_int a\<bar> / 4" by (simp add: x_def)
  from out have a1: "1 \<le> \<bar>a\<bar>" and a4: "1 \<le> \<bar>4 - a\<bar>" by auto
  have x_quarter: "1 / 4 \<le> \<bar>x\<bar>"
  proof -
    from a1 have "(1::rat) \<le> \<bar>of_int a\<bar>"
      by (simp only: of_int_abs [symmetric] of_int_1_le_iff)
    then show ?thesis by (simp add: ax)
  qed
  have d_quarter: "1 / 4 \<le> \<bar>1 - x\<bar>"
  proof -
    from a4 have b: "(1::rat) \<le> \<bar>of_int (4 - a)\<bar>"
      by (simp only: of_int_abs [symmetric] of_int_1_le_iff)
    have "1 - x = of_int (4 - a) / 4" by (simp add: x_def)
    then have "\<bar>1 - x\<bar> = \<bar>of_int (4 - a) / 4 :: rat\<bar>" by (simp only:)
    also have "\<dots> = \<bar>of_int (4 - a)\<bar> / 4" by (simp only: abs_divide abs_numeral)
    finally have e: "\<bar>1 - x\<bar> = \<bar>of_int (4 - a)\<bar> / 4" .
    from b have "1 / 4 \<le> \<bar>of_int (4 - a) :: rat\<bar> / 4"
      by (rule divide_right_mono) simp
    then show ?thesis by (simp only: e)
  qed
  have range: "\<not> (0 \<le> x \<and> x \<le> 1)"
    using out by (auto simp: x_def)
  have neg: "nearest_double (- x) = Some (- x)"
  proof -
    from small have "\<bar>- a\<bar> < 2 ^ 53" by simp
    moreover have "of_int (- a) / 4 = 0 - x" by (simp add: x_def)
    ultimately have "nearest_double (0 - x) = Some (0 - x)"
      using nearest_double_quarter [of "- a"] by (simp only:)
    then show ?thesis by (simp only: diff_0)
  qed
  have one: "nearest_double (1 - x) = Some (1 - x)"
  proof -
    from small have "\<bar>4 - a\<bar> < 2 ^ 53" by simp
    moreover have "of_int (4 - a) / 4 = 1 - x" by (simp add: x_def diff_divide_distrib)
    ultimately show ?thesis using nearest_double_quarter [of "4 - a"] by (simp only:)
  qed
  have t16: "float_1e_9 * \<bar>x\<bar> \<le> \<bar>x\<bar> / 16"
    using mult_right_mono [of float_1e_9 "1 / 16" "\<bar>x\<bar>"] float_1e_9_small(2) by simp
  have "\<bar>float_1e_9 * x\<bar> = float_1e_9 * \<bar>x\<bar>"
    using float_1e_9_small(1) by (simp add: abs_mult)
  also have "\<dots> \<le> \<bar>x\<bar> / 16" by (rule t16)
  also have "\<dots> \<le> \<bar>x\<bar>" by simp
  also have "\<dots> < pow2 51"
  proof -
    from small have "\<bar>a\<bar> < 2 ^ 53" by simp
    then have "(of_int \<bar>a\<bar> :: rat) < of_int (2 ^ 53)" by (simp only: of_int_less_iff)
    then show ?thesis by (simp add: ax pow2_def)
  qed
  finally have "nearest_double (float_1e_9 * x) \<noteq> None"
    by (rule nearest_double_finite) simp
  then obtain ra where ra: "nearest_double (float_1e_9 * x) = Some ra" by auto
  from nearest_double_abs_le [OF ra] have "\<bar>ra\<bar> \<le> 2 * (float_1e_9 * \<bar>x\<bar>)"
    using float_1e_9_small(1) by (simp add: abs_mult)
  with t16 have ra8: "\<bar>ra\<bar> \<le> \<bar>x\<bar> / 8" by simp
  have xd: "\<bar>x\<bar> / 8 < \<bar>1 - x\<bar>"
    using x_quarter d_quarter by (simp add: abs_if split: if_splits)
  have x_pos: "\<bar>x\<bar> / 8 < \<bar>x\<bar>"
    using x_quarter by simp
  have tol: "\<bar>float_1e_9\<bar> < 1 / 4"
    using float_1e_9_small by simp
  have x0: "x \<noteq> 0" using x_quarter by auto
  have x1: "x \<noteq> 1" using d_quarter by auto
  have c0: "\<not> isclose x 0"
    using x0 ra8 x_pos x_quarter tol
    by (simp add: isclose_def Let_def neg ra nearest_double_zero)
  have c1: "\<not> isclose x 1"
    using x1 ra8 xd d_quarter tol
    by (simp add: isclose_def Let_def one ra float_1e_9_double)
  from range c0 c1 show ?thesis
    by (simp add: check_float_between_def x_def)
qed

subsection \<open>The three functions, unfolded\<close>

lemma compute_current_step_absent:
  "session_state w ''current_step'' = None \<Longrightarrow> compute_current_step w = (Inr 0, w)"
  by (simp add: compute_current_step_def session_get_def)

lemma compute_current_step_present:
  "session_state w ''current_step'' = Some v \<Longrightarrow> compute_current_step w = (py_int v, w)"
  by (simp add: compute_current_step_def session_get_def)

lemma compute_current_step_world: "snd (compute_current_step w) = w"
  by (simp add: compute_current_step_def session_get_def split: option.split)

lemma st_progress_session: "session_state (snd (st_progress x w)) = session_state w"
  by (simp add: st_progress_def)

lemma render_progress_of_session:
  "session_state (snd (render_progress_of steps step w)) = session_state w"
  by (simp add: render_progress_of_def st_write_def st_progress_session split: sum.split)

lemma render_progress_unfold:
  "render_progress step w =
     (case int_true_divide (step + 1) 4 of
        Inl e \<Rightarrow> (Inl e, w)
      | Inr x \<Rightarrow>
          st_progress x
            (w\<lparr>page := page w @ [Write (''Step '' @ py_str_int (step + 1) @ '' of 4'')]\<rparr>))"
  by (simp add: render_progress_def render_progress_of_def length_STEPS small_strs
      st_write_def split: sum.split)

text \<open>
  \<open>render_progress\<close> on every step from \<open>- 1\<close> to 3, the steps whose fraction
  \<^verbatim>\<open>st.progress\<close> accepts; on the other steps of up to 52 bits, which it refuses after the
  text is written; and on a step too large for a float.
\<close>

lemma render_progress_in_range:
  assumes "0 \<le> step + 1" and "step + 1 \<le> 4"
  shows "render_progress step w =
    (Inr (), w\<lparr>page := page w @
       [Write (''Step '' @ py_str_int (step + 1) @ '' of 4''),
        Progress (of_int (step + 1) / 4)]\<rparr>)"
proof -
  from assms have "\<bar>step + 1\<bar> < 2 ^ 53" by simp
  then have q: "int_true_divide (step + 1) 4 = Inr (of_int (step + 1) / 4)"
    by (rule int_true_divide_4_exact)
  have "(0::rat) \<le> of_int (step + 1)" and "(of_int (step + 1) :: rat) \<le> of_int 4"
    using assms by (simp_all only: of_int_0_le_iff of_int_le_iff)
  then have "check_float_between (of_int (step + 1) / 4)"
    by (intro check_float_between_unit) simp_all
  with q show ?thesis
    by (simp add: render_progress_unfold st_progress_def)
qed

lemma render_progress_out_of_range:
  assumes "\<bar>step + 1\<bar> < 2 ^ 52" and "step + 1 < 0 \<or> 4 < step + 1"
  shows "render_progress step w =
    (Inl (StreamlitAPIException (of_int (step + 1) / 4)),
     w\<lparr>page := page w @ [Write (''Step '' @ py_str_int (step + 1) @ '' of 4'')]\<rparr>)"
proof -
  from assms(1) have "\<bar>step + 1\<bar> < 2 ^ 53" by simp
  then have q: "int_true_divide (step + 1) 4 = Inr (of_int (step + 1) / 4)"
    by (rule int_true_divide_4_exact)
  from check_float_between_quarters [OF assms] q show ?thesis
    by (simp add: render_progress_unfold st_progress_def)
qed

lemma render_progress_overflow:
  assumes "2 ^ 1026 \<le> step + 1"
  shows "render_progress step w = (Inl OverflowError, w)"
proof -
  have "(2::rat) powi 1024 * 2 powi 2 = 2 powi (1024 + 2)"
    by (rule power_int_add [symmetric]) simp
  then have "(2::rat) powi 1024 * 4 = 2 ^ 1026"
    by (simp only: power_int_numeral) simp
  moreover have "(of_int (2 ^ 1026) :: rat) \<le> of_int (step + 1)"
    using assms by (simp only: of_int_le_iff)
  ultimately have "pow2 1024 * 4 \<le> of_int (step + 1)"
    by (simp add: pow2_powi)
  then have "pow2 1024 \<le> of_int (step + 1) / (4 :: rat)"
    by (simp add: pos_le_divide_eq)
  also have "\<dots> \<le> \<bar>of_int (step + 1) / 4 :: rat\<bar>"
    by (rule abs_ge_self)
  finally have "pow2 1024 \<le> \<bar>of_int (step + 1) / 4 :: rat\<bar>" .
  then have "nearest_double (of_int (step + 1) / 4) = None"
    by (rule nearest_double_overflow)
  then show ?thesis
    by (simp add: render_progress_unfold int_true_divide_def)
qed

lemma main_unfold:
  "main w = (case fst (compute_current_step w) of
               Inl e \<Rightarrow> (Inl e, w)
             | Inr step \<Rightarrow> render_progress step w)"
  using compute_current_step_world [of w]
  by (cases "compute_current_step w") (simp add: main_def split: sum.split)

lemma py_int_fails_iff:
  "py_int v = Inl e \<longleftrightarrow>
     (v = PNone \<and> e = TypeError) \<or> (\<exists>xs. v = PList xs \<and> e = TypeError) \<or>
     (v = PFloat NaN \<and> e = ValueError) \<or>
     ((v = PFloat PosInf \<or> v = PFloat NegInf) \<and> e = OverflowError) \<or>
     (\<exists>s. v = PStr s \<and> int_of_str s = None \<and> e = ValueError)"
  by (cases v rule: py_int.cases) (auto split: option.splits)

lemma trunc_abs_le: "\<bar>of_int (trunc r) :: rat\<bar> \<le> \<bar>r\<bar>"
proof (cases "0 \<le> r")
  case True
  then have "0 \<le> \<lfloor>r\<rfloor>" by simp
  with True show ?thesis
    using of_int_floor_le [of r] by (simp add: trunc_def)
next
  case False
  then have "\<lceil>r\<rceil> \<le> 0" by (simp add: ceiling_le_zero)
  then have "(of_int \<lceil>r\<rceil> :: rat) \<le> 0" by simp
  with False show ?thesis
    using le_of_int_ceiling [of r] by (simp add: trunc_def)
qed

lemma trunc_abs_less: "\<bar>r\<bar> < \<bar>of_int (trunc r) :: rat\<bar> + 1"
proof (cases "0 \<le> r")
  case True
  then have "0 \<le> \<lfloor>r\<rfloor>" by simp
  then have "(0 :: rat) \<le> of_int \<lfloor>r\<rfloor>" by simp
  with True show ?thesis
    using floor_correct [of r] by (simp add: trunc_def)
next
  case False
  then have "\<lceil>r\<rceil> \<le> 0" by (simp add: ceiling_le_zero)
  then have "(of_int \<lceil>r\<rceil> :: rat) \<le> 0" by simp
  with False show ?thesis
    using ceiling_correct [of r] by (simp add: trunc_def)
qed

subsection \<open>The claims\<close>

text \<open>
  Claim C1. For every index \<open>i\<close> from 0 to \<open>length STEPS - 1\<close>, \<open>render_progress i\<close> raises
  nothing and appends to the page the text \<^verbatim>\<open>Step {i+1} of {len(STEPS)}\<close> and then a progress
  call whose argument is exactly the fraction \<open>(i + 1) / length STEPS\<close>.
\<close>
theorem render_progress_valid_index:
  assumes "0 \<le> i" and "i < int (length STEPS)"
  shows "render_progress i w =
    (Inr (), w\<lparr>page := page w @
       [Write (''Step '' @ py_str_int (i + 1) @ '' of '' @ py_str_int (int (length STEPS))),
        Progress (of_int (i + 1) / of_int (int (length STEPS)))]\<rparr>)"
proof -
  from assms have "i = 0 \<or> i = 1 \<or> i = 2 \<or> i = 3"
    by (simp add: length_STEPS) arith
  then show ?thesis
    by (elim disjE)
      (simp_all add: render_progress_unfold quarters length_STEPS small_strs
        st_progress_def check_float_between_unit)
qed

theorem render_progress_valid_index_witness:
  "render_progress 2 \<lparr>session_state = Map.empty, page = []\<rparr> =
     (Inr (), \<lparr>session_state = Map.empty, page = [Write ''Step 3 of 4'', Progress (3 / 4)]\<rparr>)"
  using render_progress_valid_index [of 2 "\<lparr>session_state = Map.empty, page = []\<rparr>"]
  by (simp add: length_STEPS small_strs)

text \<open>
  Claim C2. When the session state holds an integer \<open>v\<close> under \<^verbatim>\<open>"current_step"\<close>,
  \<open>compute_current_step\<close> returns \<open>v\<close> itself, whatever its sign or size: nothing compares it
  with the length of \<open>STEPS\<close>.
\<close>
theorem compute_current_step_int_identity:
  "session_state w ''current_step'' = Some (PInt v) \<Longrightarrow> compute_current_step w = (Inr v, w)"
  by (simp add: compute_current_step_present)

theorem compute_current_step_int_identity_witness:
  "compute_current_step \<lparr>session_state = [''current_step'' \<mapsto> PInt (- 7)], page = []\<rparr>
     = (Inr (- 7), \<lparr>session_state = [''current_step'' \<mapsto> PInt (- 7)], page = []\<rparr>)"
  using compute_current_step_int_identity
    [of "\<lparr>session_state = [''current_step'' \<mapsto> PInt (- 7)], page = []\<rparr>" "- 7"]
  by simp

text \<open>
  Claim C3, as the code has it. With \<^verbatim>\<open>"current_step"\<close> equal to 5, \<open>main\<close> appends the text
  \<^verbatim>\<open>Step 6 of 4\<close> to the page and passes the fraction 3/2, that is 1.5, unchanged to
  \<^verbatim>\<open>st.progress\<close>, which refuses a float outside the interval from 0.0 to 1.0: \<open>main\<close> ends
  with \<^verbatim>\<open>StreamlitAPIException\<close> on the value 1.5, and the page holds the text and no
  progress element.
\<close>
theorem main_step_five:
  "session_state w ''current_step'' = Some (PInt 5) \<Longrightarrow>
     main w = (Inl (StreamlitAPIException (3 / 2)), w\<lparr>page := page w @ [Write ''Step 6 of 4'']\<rparr>)"
  by (simp add: main_unfold compute_current_step_present render_progress_unfold quarters small_strs
      st_progress_def check_float_between_three_halves)

theorem main_step_five_witness:
  "main \<lparr>session_state = [''current_step'' \<mapsto> PInt 5], page = []\<rparr>
     = (Inl (StreamlitAPIException (3 / 2)),
        \<lparr>session_state = [''current_step'' \<mapsto> PInt 5], page = [Write ''Step 6 of 4'']\<rparr>)"
  using main_step_five [of "\<lparr>session_state = [''current_step'' \<mapsto> PInt 5], page = []\<rparr>"]
  by simp

text \<open>
  Claim C3 as it was stated, that both outputs are produced, fails at this input: \<open>main\<close>
  does not return, and no progress call with 3/2 reaches the page.
\<close>
theorem main_step_five_counterexample:
  "fst (main \<lparr>session_state = [''current_step'' \<mapsto> PInt 5], page = []\<rparr>) \<noteq> Inr () \<and>
   Progress (3 / 2) \<notin>
     set (page (snd (main \<lparr>session_state = [''current_step'' \<mapsto> PInt 5], page = []\<rparr>)))"
  by (simp add: main_unfold compute_current_step_present render_progress_unfold quarters small_strs
      st_progress_def check_float_between_three_halves)

text \<open>
  Claim C4. When the session state has no \<^verbatim>\<open>"current_step"\<close> key, \<open>compute_current_step\<close>
  returns 0, and \<open>main\<close> appends the text \<^verbatim>\<open>Step 1 of 4\<close> and a progress call with argument
  1/4, that is 0.25.
\<close>
theorem main_step_absent:
  "session_state w ''current_step'' = None \<Longrightarrow>
     compute_current_step w = (Inr 0, w) \<and>
     main w = (Inr (), w\<lparr>page := page w @ [Write ''Step 1 of 4'', Progress (1 / 4)]\<rparr>)"
  by (simp add: main_unfold compute_current_step_absent render_progress_unfold quarters small_strs
      st_progress_def check_float_between_unit)

theorem main_step_absent_witness:
  "compute_current_step \<lparr>session_state = Map.empty, page = []\<rparr>
     = (Inr 0, \<lparr>session_state = Map.empty, page = []\<rparr>) \<and>
   main \<lparr>session_state = Map.empty, page = []\<rparr>
     = (Inr (), \<lparr>session_state = Map.empty, page = [Write ''Step 1 of 4'', Progress (1 / 4)]\<rparr>)"
  using main_step_absent [of "\<lparr>session_state = Map.empty, page = []\<rparr>"]
  by simp

text \<open>
  Claim C5. \<open>compute_current_step\<close> raises an exception exactly when the key is present and
  \<^verbatim>\<open>int\<close> raises that exception on the stored value. Whenever \<^verbatim>\<open>int\<close> refuses the stored
  value, the exception leaves \<open>compute_current_step\<close> and then \<open>main\<close> as it is, with nothing
  written to the page: no integer, and so no 0, stands in for the value.
\<close>
theorem compute_current_step_raises_iff:
  "(fst (compute_current_step w) = Inl e \<longleftrightarrow>
      (\<exists>v. session_state w ''current_step'' = Some v \<and> py_int v = Inl e)) \<and>
   (\<forall>v. session_state w ''current_step'' = Some v \<and> py_int v = Inl e \<longrightarrow>
      compute_current_step w = (Inl e, w) \<and> main w = (Inl e, w))"
  by (cases "session_state w ''current_step''")
     (auto simp: compute_current_step_absent compute_current_step_present main_unfold)

theorem compute_current_step_raises_iff_witness:
  "fst (compute_current_step \<lparr>session_state = [''current_step'' \<mapsto> PStr ''abc''], page = []\<rparr>)
     = Inl ValueError \<and>
   main \<lparr>session_state = [''current_step'' \<mapsto> PStr ''abc''], page = []\<rparr>
     = (Inl ValueError, \<lparr>session_state = [''current_step'' \<mapsto> PStr ''abc''], page = []\<rparr>) \<and>
   main \<lparr>session_state = [''current_step'' \<mapsto> PStr [CHR 0x1C, CHR ''3'']], page = []\<rparr>
     = (Inl ValueError,
        \<lparr>session_state = [''current_step'' \<mapsto> PStr [CHR 0x1C, CHR ''3'']], page = []\<rparr>) \<and>
   main \<lparr>session_state = [''current_step'' \<mapsto> PNone], page = []\<rparr>
     = (Inl TypeError, \<lparr>session_state = [''current_step'' \<mapsto> PNone], page = []\<rparr>)"
proof -
  have "py_int (PStr ''abc'') = Inl ValueError"
    and "py_int (PStr [CHR 0x1C, CHR ''3'']) = Inl ValueError"
    and "py_int PNone = Inl TypeError"
    by code_simp+
  then show ?thesis
    using
      compute_current_step_raises_iff
        [of "\<lparr>session_state = [''current_step'' \<mapsto> PStr ''abc''], page = []\<rparr>" ValueError]
      compute_current_step_raises_iff
        [of "\<lparr>session_state = [''current_step'' \<mapsto> PStr [CHR 0x1C, CHR ''3'']], page = []\<rparr>"
            ValueError]
      compute_current_step_raises_iff
        [of "\<lparr>session_state = [''current_step'' \<mapsto> PNone], page = []\<rparr>" TypeError]
    by simp
qed

text \<open>
  Claim C6. \<open>STEPS\<close> is the list of the four stage names, in this order, and its length is 4.
\<close>
theorem STEPS_fixed:
  "STEPS = [''Upload File'', ''Map Accounts'', ''Review Results'', ''Finalize''] \<and>
   length STEPS = 4"
  by (simp add: STEPS_def)

text \<open>
  Claim C7. Over any list of steps, \<open>render_progress\<close> raises \<^verbatim>\<open>ZeroDivisionError\<close> exactly
  when the list is empty; with the constant \<open>STEPS\<close> it never raises \<^verbatim>\<open>ZeroDivisionError\<close>.
\<close>
theorem render_progress_zero_division:
  "(fst (render_progress_of steps step w) = Inl ZeroDivisionError \<longleftrightarrow> length steps = 0) \<and>
   fst (render_progress step w) \<noteq> Inl ZeroDivisionError"
proof -
  have zero: "fst (render_progress_of xs step w) = Inl ZeroDivisionError \<longleftrightarrow> length xs = 0"
    for xs :: "string list"
    using int_true_divide_zero_iff [of "step + 1" "int (length xs)"]
    by (auto simp: render_progress_of_def st_progress_def Let_def split: sum.splits if_splits)
  from zero [of steps] zero [of STEPS] show ?thesis
    by (simp add: render_progress_def length_STEPS)
qed

text \<open>
  Claim C8. \<open>compute_current_step\<close>, \<open>render_progress\<close> and \<open>main\<close> leave the session state
  as they found it, whether they return or raise.
\<close>
theorem session_state_unchanged:
  "session_state (snd (compute_current_step w)) = session_state w \<and>
   session_state (snd (render_progress step w)) = session_state w \<and>
   session_state (snd (main w)) = session_state w"
  by (simp add: compute_current_step_world render_progress_def render_progress_of_session
      main_unfold split: sum.split)

text \<open>
  Claim C9. A stored value that is not an int but that \<^verbatim>\<open>int\<close> accepts is converted without
  an exception: a finite float to its integer part (rounded toward zero: no larger in
  magnitude than the float, and less than 1 away from it), a bool to 1 or 0, and a string
  that reads as a decimal integer to that integer.
\<close>
theorem compute_current_step_coerces:
  assumes "session_state w ''current_step'' = Some v"
  shows "(v = PFloat (Finite r) \<longrightarrow>
            compute_current_step w = (Inr (trunc r), w) \<and>
            \<bar>of_int (trunc r)\<bar> \<le> \<bar>r\<bar> \<and> \<bar>r\<bar> < \<bar>of_int (trunc r)\<bar> + 1) \<and>
         (v = PBool b \<longrightarrow> compute_current_step w = (Inr (if b then 1 else 0), w)) \<and>
         (v = PStr s \<and> int_of_str s = Some n \<longrightarrow> compute_current_step w = (Inr n, w)) \<and>
         (py_int v = Inr k \<longrightarrow> compute_current_step w = (Inr k, w))"
  using assms trunc_abs_le [of r] trunc_abs_less [of r]
  by (auto simp: compute_current_step_present)

theorem compute_current_step_coerces_witness:
  "fst (compute_current_step
     \<lparr>session_state = [''current_step'' \<mapsto> PFloat (Finite (6530219459687219 / 2251799813685248))],
      page = []\<rparr>) = Inr 2 \<and>
   fst (compute_current_step
     \<lparr>session_state = [''current_step'' \<mapsto> PFloat (Finite (- (11 / 4)))], page = []\<rparr>)
     = Inr (- 2) \<and>
   fst (compute_current_step \<lparr>session_state = [''current_step'' \<mapsto> PBool True], page = []\<rparr>)
     = Inr 1 \<and>
   fst (compute_current_step \<lparr>session_state = [''current_step'' \<mapsto> PStr ''3''], page = []\<rparr>)
     = Inr 3"
proof -
  have t1: "trunc (6530219459687219 / 2251799813685248) = 2"
    and t2: "trunc (- (11 / 4)) = - 2"
    and t3: "int_of_str ''3'' = Some 3"
    by code_simp+
  show ?thesis
    using
      compute_current_step_coerces
        [where w = "\<lparr>session_state = [''current_step'' \<mapsto>
               PFloat (Finite (6530219459687219 / 2251799813685248))], page = []\<rparr>"
           and v = "PFloat (Finite (6530219459687219 / 2251799813685248))"
           and r = "6530219459687219 / 2251799813685248"]
      compute_current_step_coerces
        [where w = "\<lparr>session_state = [''current_step'' \<mapsto> PFloat (Finite (- (11 / 4)))],
                     page = []\<rparr>"
           and v = "PFloat (Finite (- (11 / 4)))" and r = "- (11 / 4)"]
      compute_current_step_coerces
        [where w = "\<lparr>session_state = [''current_step'' \<mapsto> PBool True], page = []\<rparr>"
           and v = "PBool True" and b = True]
      compute_current_step_coerces
        [where w = "\<lparr>session_state = [''current_step'' \<mapsto> PStr ''3''], page = []\<rparr>"
           and v = "PStr ''3''" and s = "''3''" and n = 3]
    by (simp add: t1 t2 t3)
qed

text \<open>
  Claim C10. Two worlds whose session states agree on the entry \<^verbatim>\<open>"current_step"\<close> (absent in
  both, or present with the same value) give the same result of \<open>compute_current_step\<close>,
  however the other entries and the page differ.
\<close>
theorem compute_current_step_depends_on_key:
  "session_state w1 ''current_step'' = session_state w2 ''current_step'' \<Longrightarrow>
     fst (compute_current_step w1) = fst (compute_current_step w2)"
  by (simp add: compute_current_step_def session_get_def split: option.split)

theorem compute_current_step_depends_on_key_witness:
  "fst (compute_current_step
         \<lparr>session_state = [''current_step'' \<mapsto> PInt 2, ''user'' \<mapsto> PStr ''a''], page = []\<rparr>)
   = fst (compute_current_step
         \<lparr>session_state = [''mode'' \<mapsto> PNone, ''current_step'' \<mapsto> PInt 2],
          page = [Write ''x'']\<rparr>)"
  using compute_current_step_depends_on_key
    [of "\<lparr>session_state = [''current_step'' \<mapsto> PInt 2, ''user'' \<mapsto> PStr ''a''], page = []\<rparr>"
        "\<lparr>session_state = [''mode'' \<mapsto> PNone, ''current_step'' \<mapsto> PInt 2],
          page = [Write ''x'']\<rparr>"]
  by simp

end
